theory Spec2Isabelle
  imports Main
begin

section \<open>The read_mail module: values, exceptions and the filter compiler\<close>

text \<open>
  The module under study is \<^verbatim>\<open>lib/ansible/modules/net_tools/basics/read_mail.py\<close>.
  Its single function \<^verbatim>\<open>run_module\<close> talks to an IMAP server through
  \<^verbatim>\<open>imaplib\<close> and decodes each fetched message with the \<^verbatim>\<open>email\<close> package.
  Byte strings and text strings are both modelled as \<^typ>\<open>string\<close>.
\<close>

type_synonym bytes = string

text \<open>Python exceptions, by class, each with the text that \<^verbatim>\<open>str(e)\<close> returns.\<close>

datatype pyexc =
    TypeError string
  | IndexError string
  | AttributeError string
  | Error string

fun str_exc :: "pyexc \<Rightarrow> string" where
  "str_exc (TypeError m) = m"
| "str_exc (IndexError m) = m"
| "str_exc (AttributeError m) = m"
| "str_exc (Error m) = m"

subsection \<open>Module arguments\<close>

text \<open>
  A filter is a dictionary from search keys to values, iterated in insertion order; a
  value is a string or absent (YAML null). It is an association list here.
\<close>

type_synonym filter_spec = "(string \<times> string option) list"

text \<open>What the caller supplies: \<^verbatim>\<open>username\<close> and \<^verbatim>\<open>password\<close> are required, the rest optional.\<close>

record args =
  a_host :: "string option"
  a_username :: string
  a_password :: string
  a_tls :: "bool option"
  a_port :: "int option"
  a_mailbox :: "string option"
  a_filter :: "filter_spec option"

text \<open>\<^verbatim>\<open>module.params\<close>: the arguments after \<^verbatim>\<open>AnsibleModule\<close> has filled in the defaults of \<^verbatim>\<open>module_args\<close>.\<close>

record params =
  p_host :: string
  p_username :: string
  p_password :: string
  p_tls :: bool
  p_port :: int
  p_mailbox :: string
  p_filter :: filter_spec

definition default_filter :: filter_spec where
  "default_filter = [(''ALL'', Some '''')]"

definition module_params :: "args \<Rightarrow> params" where
  "module_params a =
     \<lparr> p_host = (case a_host a of None \<Rightarrow> ''localhost'' | Some h \<Rightarrow> h),
       p_username = a_username a,
       p_password = a_password a,
       p_tls = (case a_tls a of None \<Rightarrow> True | Some b \<Rightarrow> b),
       p_port = (case a_port a of None \<Rightarrow> - 1 | Some n \<Rightarrow> n),
       p_mailbox = (case a_mailbox a of None \<Rightarrow> ''INBOX'' | Some m \<Rightarrow> m),
       p_filter = (case a_filter a of None \<Rightarrow> default_filter | Some f \<Rightarrow> f) \<rparr>"

subsection \<open>Building the search array\<close>

text \<open>
  \<^verbatim>\<open>
  search_array = []
  for k, v in module.params['filter'].items():
      search_array.append(k)
      if v:
          search_array.append(v)
  \<close>
  \<^verbatim>\<open>if v\<close> is Python truthiness: \<^verbatim>\<open>None\<close> and the empty string are false.
\<close>

fun truthy :: "string option \<Rightarrow> bool" where
  "truthy None = False"
| "truthy (Some s) = (s \<noteq> [])"

fun search_array_loop :: "filter_spec \<Rightarrow> string list \<Rightarrow> string list" where
  "search_array_loop [] search_array = search_array"
| "search_array_loop ((k, v) # items) search_array =
     search_array_loop items
       (let search_array = search_array @ [k] in
        case v of
          None \<Rightarrow> search_array
        | Some s \<Rightarrow> if truthy v then search_array @ [s] else search_array)"

definition search_array_of :: "filter_spec \<Rightarrow> string list" where
  "search_array_of f = search_array_loop f []"

text \<open>
  The compilation rule in the words of the specification: each pair emits its key, and
  its value right after the key exactly when the value is present and non-empty.
\<close>

fun emit_pair :: "string \<times> string option \<Rightarrow> string list" where
  "emit_pair (k, None) = [k]"
| "emit_pair (k, Some s) = (if s = [] then [k] else [k, s])"

definition compile_spec :: "filter_spec \<Rightarrow> string list" where
  "compile_spec f = concat (map emit_pair f)"

section \<open>The email package\<close>

text \<open>
  A parsed message (\<^verbatim>\<open>email.message.Message\<close>) holds a list of headers and a payload
  that is either a string or a list of sub-messages; \<^verbatim>\<open>is_multipart()\<close> tests which.
\<close>

datatype message =
    Leaf (headers: "(string \<times> string) list") string
  | Multipart (headers: "(string \<times> string) list") "message list"

text \<open>
  What the module takes from the Python runtime and the \<^verbatim>\<open>email\<close> package:
  whether \<^verbatim>\<open>PY3\<close> holds, the parser chosen by it (\<^verbatim>\<open>message_from_bytes\<close> or
  \<^verbatim>\<open>message_from_string\<close>), the decoding of a header string into (text, charset)
  chunks, and the decoding of a payload from a content transfer encoding.
\<close>

record email_lib =
  PY3 :: bool
  message_parser :: "bytes \<Rightarrow> pyexc + message"
  decode_words :: "string \<Rightarrow> pyexc + (string \<times> string option) list"
  transfer_decode :: "string \<Rightarrow> string \<Rightarrow> bytes"

definition lower_char :: "char \<Rightarrow> char" where
  "lower_char c =
     (case map_of (zip ''ABCDEFGHIJKLMNOPQRSTUVWXYZ'' ''abcdefghijklmnopqrstuvwxyz'') c of
        None \<Rightarrow> c
      | Some l \<Rightarrow> l)"

definition lower :: "string \<Rightarrow> string" where
  "lower s = map lower_char s"

text \<open>
  \<^verbatim>\<open>msg[name]\<close>: the value of the first header whose name matches without regard to
  case, \<^verbatim>\<open>None\<close> when there is none.
\<close>

fun header_lookup :: "(string \<times> string) list \<Rightarrow> string \<Rightarrow> string option" where
  "header_lookup [] name = None"
| "header_lookup ((k, v) # hs) name =
     (if lower k = lower name then Some v else header_lookup hs name)"

definition getitem :: "message \<Rightarrow> string \<Rightarrow> string option" where
  "getitem msg name = header_lookup (headers msg) name"

text \<open>
  \<^verbatim>\<open>decode_header(header)\<close>. Under Python 3 the argument goes straight into a regular
  expression search, which raises \<^verbatim>\<open>TypeError\<close> on \<^verbatim>\<open>None\<close>; under Python 2 it is first
  turned into a string by \<^verbatim>\<open>str(header)\<close>, so \<^verbatim>\<open>None\<close> becomes the text \<^verbatim>\<open>None\<close>.
\<close>

definition decode_header ::
  "email_lib \<Rightarrow> string option \<Rightarrow> pyexc + (string \<times> string option) list" where
  "decode_header L header =
     (if PY3 L then
        (case header of
           None \<Rightarrow> Inl (TypeError ''expected string or bytes-like object'')
         | Some h \<Rightarrow> decode_words L h)
      else decode_words L (case header of None \<Rightarrow> ''None'' | Some h \<Rightarrow> h))"

text \<open>\<^verbatim>\<open>decode_header(msg[name])[0][0]\<close>: the text of the first chunk.\<close>

definition first_chunk :: "email_lib \<Rightarrow> message \<Rightarrow> string \<Rightarrow> pyexc + string" where
  "first_chunk L msg name =
     (case decode_header L (getitem msg name) of
        Inl e \<Rightarrow> Inl e
      | Inr [] \<Rightarrow> Inl (IndexError ''list index out of range'')
      | Inr ((text, charset) # _) \<Rightarrow> Inr text)"

text \<open>
  \<^verbatim>\<open>msg.get_payload(i)\<close> with an index and no decoding: the i-th part of a multipart
  message; on a message whose payload is not a list it raises \<^verbatim>\<open>TypeError\<close>.
\<close>

fun get_payload_at :: "message \<Rightarrow> nat \<Rightarrow> pyexc + message" where
  "get_payload_at (Multipart hs ps) i =
     (if i < length ps then Inr (ps ! i) else Inl (IndexError ''list index out of range''))"
| "get_payload_at (Leaf hs p) i = Inl (TypeError ''Expected list, got str'')"

text \<open>
  \<^verbatim>\<open>part.get_payload(None, True)\<close>: \<^verbatim>\<open>None\<close> on a multipart message, otherwise the
  payload decoded according to the part's \<^verbatim>\<open>Content-Transfer-Encoding\<close> header
  (lower-cased, the empty string when the header is missing).
\<close>

fun get_payload_decoded :: "email_lib \<Rightarrow> message \<Rightarrow> bytes option" where
  "get_payload_decoded L (Multipart hs ps) = None"
| "get_payload_decoded L (Leaf hs p) =
     Some (transfer_decode L
       (lower (case header_lookup hs ''content-transfer-encoding'' of
                 None \<Rightarrow> [] | Some cte \<Rightarrow> cte)) p)"

text \<open>One entry of \<^verbatim>\<open>mails\<close>; the body is \<^verbatim>\<open>None\<close> when the first part is itself multipart.\<close>

record mail =
  mail_to :: string
  mail_from :: string
  mail_subject :: string
  mail_body :: "bytes option"

text \<open>
  The dictionary appended to \<^verbatim>\<open>result['mails']\<close> (lines 200 to 205); its four values
  are evaluated in the order written, and the first exception ends the evaluation.
\<close>

definition build_mail :: "email_lib \<Rightarrow> message \<Rightarrow> pyexc + mail" where
  "build_mail L msg =
     (case first_chunk L msg ''to'' of Inl e \<Rightarrow> Inl e | Inr t \<Rightarrow>
      case first_chunk L msg ''from'' of Inl e \<Rightarrow> Inl e | Inr f \<Rightarrow>
      case first_chunk L msg ''subject'' of Inl e \<Rightarrow> Inl e | Inr s \<Rightarrow>
      case get_payload_at msg 0 of Inl e \<Rightarrow> Inl e | Inr part \<Rightarrow>
        Inr \<lparr> mail_to = t, mail_from = f, mail_subject = s,
              mail_body = get_payload_decoded L part \<rparr>)"

section \<open>The IMAP session\<close>

text \<open>
  One element of the data list that \<^verbatim>\<open>M.fetch\<close> returns: \<^verbatim>\<open>None\<close>, a byte string, or a
  pair (envelope, literal).
\<close>

datatype fetch_item = FNone | FBytes bytes | FTuple bytes bytes

text \<open>
  \<^verbatim>\<open>imaplib\<close> and the server behind it, over a session state \<open>'s\<close>. Each call either
  raises or returns its value together with the next state. \<^verbatim>\<open>select\<close>, \<^verbatim>\<open>search\<close> and
  \<^verbatim>\<open>fetch\<close> return a status string (\<^verbatim>\<open>OK\<close>, \<^verbatim>\<open>NO\<close>, ...) and a data list.
\<close>

record 's imaplib =
  IMAP4_SSL :: "string \<Rightarrow> int \<Rightarrow> pyexc + 's"
  IMAP4 :: "string \<Rightarrow> int \<Rightarrow> pyexc + 's"
  M_login :: "string \<Rightarrow> string \<Rightarrow> 's \<Rightarrow> pyexc + 's"
  M_select :: "string \<Rightarrow> 's \<Rightarrow> pyexc + (string \<times> 's)"
  M_search :: "string list \<Rightarrow> 's \<Rightarrow> pyexc + ((string \<times> bytes option list) \<times> 's)"
  M_fetch :: "bytes \<Rightarrow> string \<Rightarrow> 's \<Rightarrow> pyexc + ((string \<times> fetch_item list) \<times> 's)"

text \<open>
  The log of a run: every operation issued on the session (the methods of the
  \<^verbatim>\<open>imaplib\<close> connection object, \<^verbatim>\<open>close\<close> and \<^verbatim>\<open>logout\<close> among them) with what came back.
\<close>

datatype imap_call =
    Open bool string int
  | Login string string
  | Select string
  | Search "string list"
  | Fetch bytes string
  | Close
  | Logout

datatype imap_reply = Raised pyexc | Done | Status string

type_synonym event = "imap_call \<times> imap_reply"

text \<open>
  \<^verbatim>\<open>search[0].split()\<close>: the first element of the data list, split at runs of ASCII
  whitespace.
\<close>

definition is_space :: "char \<Rightarrow> bool" where
  "is_space c = (c \<in> set [CHR '' '', CHR 0x09, CHR 0x0A, CHR 0x0B, CHR 0x0C, CHR 0x0D])"

fun split_acc :: "string \<Rightarrow> string \<Rightarrow> string list" where
  "split_acc [] w = (if w = [] then [] else [w])"
| "split_acc (c # cs) w =
     (if is_space c then (if w = [] then split_acc cs [] else w # split_acc cs [])
      else split_acc cs (w @ [c]))"

definition bytes_split :: "bytes \<Rightarrow> bytes list" where
  "bytes_split b = split_acc b []"

definition email_ids :: "bytes option list \<Rightarrow> pyexc + bytes list" where
  "email_ids search =
     (case search of
        [] \<Rightarrow> Inl (IndexError ''list index out of range'')
      | None # _ \<Rightarrow> Inl (AttributeError ''NoneType object has no attribute split'')
      | Some b # _ \<Rightarrow> Inr (bytes_split b))"

text \<open>
  \<^verbatim>\<open>message_parser(content[0][1])\<close>. Indexing a byte string gives an integer under
  Python 3, which \<^verbatim>\<open>message_from_bytes\<close> cannot decode, and a one-character string under
  Python 2.
\<close>

definition parse_content :: "email_lib \<Rightarrow> fetch_item list \<Rightarrow> pyexc + message" where
  "parse_content L content =
     (case content of
        [] \<Rightarrow> Inl (IndexError ''list index out of range'')
      | FNone # _ \<Rightarrow> Inl (TypeError ''NoneType object is not subscriptable'')
      | FTuple envelope literal # _ \<Rightarrow> message_parser L literal
      | FBytes b # _ \<Rightarrow>
          (if length b < 2 then Inl (IndexError ''index out of range'')
           else if PY3 L then Inl (AttributeError ''int object has no attribute decode'')
           else message_parser L [b ! 1]))"

section \<open>run_module\<close>

record result =
  changed :: bool
  username :: string
  host :: string
  mails :: "mail list"
  mails_count :: int

text \<open>
  How the process ends: \<^verbatim>\<open>module.exit_json(**result)\<close>, \<^verbatim>\<open>module.fail_json(msg=..., **result)\<close>
  (both print their keyword arguments and exit), or an exception that nothing catches.
\<close>

datatype outcome =
    ExitJson result
  | FailJson string result
  | Traceback pyexc

definition logged :: "event \<Rightarrow> 'a \<times> event list \<Rightarrow> 'a \<times> event list" where
  "logged ev r = (fst r, ev # snd r)"

text \<open>
  The loop of lines 193 to 205. \<open>Inl\<close> is a run that ended inside the loop, \<open>Inr\<close> the
  result dictionary after the last id. \<^verbatim>\<open>result['mails'].append\<close> changes the dictionary
  that a later \<^verbatim>\<open>fail_json(**result)\<close> passes on.
\<close>

fun build_result_mails ::
  "'s imaplib \<Rightarrow> email_lib \<Rightarrow> bytes list \<Rightarrow> result \<Rightarrow> 's \<Rightarrow> (outcome + result) \<times> event list"
where
  "build_result_mails W L [] result s = (Inr result, [])"
| "build_result_mails W L (email_id # ids) result s =
     (case M_fetch W email_id ''(RFC822)'' s of
        Inl e \<Rightarrow> (Inl (Traceback e), [(Fetch email_id ''(RFC822)'', Raised e)])
      | Inr ((status, content), s') \<Rightarrow>
          logged (Fetch email_id ''(RFC822)'', Status status)
            (if status \<noteq> ''OK'' then (Inl (FailJson ''Error parsing'' result), [])
             else
               (case parse_content L content of
                  Inl e \<Rightarrow> (Inl (Traceback e), [])
                | Inr msg \<Rightarrow>
                    (case build_mail L msg of
                       Inl e \<Rightarrow> (Inl (Traceback e), [])
                     | Inr m \<Rightarrow>
                         build_result_mails W L ids
                           (result\<lparr>mails := mails result @ [m]\<rparr>) s'))))"

text \<open>Lines 206 to 208, reached when the loop has run through every id.\<close>

definition exit_after_loop :: "(outcome + result) \<times> event list \<Rightarrow> outcome \<times> event list" where
  "exit_after_loop lr =
     (case fst lr of
        Inl out \<Rightarrow> (out, snd lr)
      | Inr result \<Rightarrow>
          (ExitJson (result\<lparr>mails_count := int (length (mails result))\<rparr>), snd lr))"

text \<open>Lines 182 to 208: the filter, the search, the loop and the successful exit.\<close>

definition search_stage ::
  "'s imaplib \<Rightarrow> email_lib \<Rightarrow> params \<Rightarrow> result \<Rightarrow> 's \<Rightarrow> outcome \<times> event list" where
  "search_stage W L p result s =
     (let search_array = search_array_of (p_filter p) in
      case M_search W search_array s of
        Inl e \<Rightarrow> (Traceback e, [(Search search_array, Raised e)])
      | Inr ((status, search), s') \<Rightarrow>
          logged (Search search_array, Status status)
            (if status \<noteq> ''OK'' then (FailJson ''Error filtering'' result, [])
             else
               (case email_ids search of
                  Inl e \<Rightarrow> (Traceback e, [])
                | Inr ids \<Rightarrow> exit_after_loop (build_result_mails W L ids result s'))))"

text \<open>Line 180: the value that \<^verbatim>\<open>M.select\<close> returns is dropped.\<close>

definition select_stage ::
  "'s imaplib \<Rightarrow> email_lib \<Rightarrow> params \<Rightarrow> result \<Rightarrow> 's \<Rightarrow> outcome \<times> event list" where
  "select_stage W L p result s =
     (case M_select W (p_mailbox p) s of
        Inl e \<Rightarrow> (Traceback e, [(Select (p_mailbox p), Raised e)])
      | Inr (status, s') \<Rightarrow>
          logged (Select (p_mailbox p), Status status) (search_stage W L p result s'))"

text \<open>Lines 173 to 177.\<close>

definition login_stage ::
  "'s imaplib \<Rightarrow> email_lib \<Rightarrow> params \<Rightarrow> result \<Rightarrow> 's \<Rightarrow> outcome \<times> event list" where
  "login_stage W L p result s =
     (case M_login W (p_username p) (p_password p) s of
        Inl e \<Rightarrow>
          (FailJson (str_exc e) result, [(Login (p_username p) (p_password p), Raised e)])
      | Inr s' \<Rightarrow>
          logged (Login (p_username p) (p_password p), Done) (select_stage W L p result s'))"

text \<open>Lines 164 to 169: the port and the constructor chosen by \<^verbatim>\<open>tls\<close>.\<close>

definition effective_port :: "params \<Rightarrow> int" where
  "effective_port p =
     (if p_tls p then (if p_port p < 0 then 993 else p_port p)
      else (if p_port p < 0 then 143 else p_port p))"

definition create_connection :: "'s imaplib \<Rightarrow> params \<Rightarrow> pyexc + 's" where
  "create_connection W p =
     (if p_tls p then IMAP4_SSL W (p_host p) (effective_port p)
      else IMAP4 W (p_host p) (effective_port p))"

definition base_result :: "params \<Rightarrow> result" where
  "base_result p =
     \<lparr> changed = True, username = p_username p, host = p_host p, mails = [],
       mails_count = 0 \<rparr>"

definition run_module ::
  "'s imaplib \<Rightarrow> email_lib \<Rightarrow> args \<Rightarrow> bool \<Rightarrow> outcome \<times> event list" where
  "run_module W L a check_mode =
     (let p = module_params a; result = base_result p in
      if check_mode then (ExitJson result, [])
      else
        (case create_connection W p of
           Inl e \<Rightarrow>
             (FailJson (str_exc e) result,
              [(Open (p_tls p) (p_host p) (effective_port p), Raised e)])
         | Inr M \<Rightarrow>
             logged (Open (p_tls p) (p_host p) (effective_port p), Done)
               (login_stage W L p result M)))"

section \<open>Reading the log\<close>

text \<open>
  The four places where \<^verbatim>\<open>run_module\<close> calls \<^verbatim>\<open>fail_json\<close> (lines 171, 177, 190 and 196),
  told from a log entry, with the message passed: a connection or a login that raised,
  a search or a fetch that returned a status other than \<^verbatim>\<open>OK\<close>.
\<close>

fun failure_point :: "event \<Rightarrow> string option" where
  "failure_point (Open tls h port, Raised e) = Some (str_exc e)"
| "failure_point (Login u pw, Raised e) = Some (str_exc e)"
| "failure_point (Search toks, Status st) =
     (if st \<noteq> ''OK'' then Some ''Error filtering'' else None)"
| "failure_point (Fetch i parts, Status st) =
     (if st \<noteq> ''OK'' then Some ''Error parsing'' else None)"
| "failure_point _ = None"

definition calls :: "event list \<Rightarrow> imap_call list" where
  "calls tr = map fst tr"

fun is_fetch :: "imap_call \<Rightarrow> bool" where
  "is_fetch (Fetch i parts) = True"
| "is_fetch _ = False"

section \<open>A concrete session\<close>

text \<open>
  A small server for running the module on concrete inputs. It keeps the connection
  state of \<^verbatim>\<open>imaplib\<close>: only the mailbox \<^verbatim>\<open>INBOX\<close> exists, a failed \<^verbatim>\<open>select\<close> leaves the
  state \<^verbatim>\<open>AUTH\<close>, and \<^verbatim>\<open>search\<close> and \<^verbatim>\<open>fetch\<close> raise outside the state \<^verbatim>\<open>SELECTED\<close>. The
  reply to \<^verbatim>\<open>search\<close> and the ids whose \<^verbatim>\<open>fetch\<close> is answered \<^verbatim>\<open>NO\<close> are parameters.
\<close>

datatype imap_state = NONAUTH | AUTH | SELECTED

definition test_server ::
  "string \<times> bytes option list \<Rightarrow> bytes list \<Rightarrow> imap_state imaplib" where
  "test_server search_reply bad =
     \<lparr> IMAP4_SSL = (\<lambda>h port. if h = ''imap.myhost.com'' then Inr NONAUTH
                      else Inl (Error ''Name or service not known'')),
       IMAP4 = (\<lambda>h port. if h = ''imap.myhost.com'' then Inr NONAUTH
                      else Inl (Error ''Name or service not known'')),
       M_login = (\<lambda>u pw s. if pw = ''mypass'' then Inr AUTH
                      else Inl (Error ''LOGIN failed'')),
       M_select = (\<lambda>mb s. if mb = ''INBOX'' then Inr (''OK'', SELECTED)
                      else Inr (''NO'', AUTH)),
       M_search = (\<lambda>toks s. if s = SELECTED then Inr (search_reply, s)
                      else Inl (Error ''command SEARCH illegal in state AUTH'')),
       M_fetch = (\<lambda>i parts s.
                      if s \<noteq> SELECTED then Inl (Error ''command FETCH illegal in state AUTH'')
                      else if i \<in> set bad then Inr ((''NO'', [FBytes ''fetch failed'']), s)
                      else Inr ((''OK'', [FTuple (i @ '' (RFC822 {64}'') i, FBytes '')'']), s)) \<rparr>"

text \<open>
  Three messages: a multipart one, a single-part one with all three headers, and a
  multipart one without a \<^verbatim>\<open>Subject\<close> header. The parser returns the single-part message
  for the literal \<^verbatim>\<open>8\<close>, the one without subject for \<^verbatim>\<open>9\<close>, and a multipart message
  carrying the literal otherwise.
\<close>

definition multipart_msg :: "string \<Rightarrow> message" where
  "multipart_msg n =
     Multipart [(''To'', ''ops@example.com''), (''From'', ''billing@example.com''),
                (''Subject'', ''Invoice '' @ n)]
       [Leaf [(''Content-Type'', ''text/plain'')] (''Body '' @ n), Leaf [] ''attachment'']"

definition single_msg :: message where
  "single_msg =
     Leaf [(''To'', ''ops@example.com''), (''From'', ''billing@example.com''),
           (''Subject'', ''Reminder'')] ''Plain body''"

definition no_subject_msg :: message where
  "no_subject_msg =
     Multipart [(''To'', ''ops@example.com''), (''From'', ''billing@example.com'')]
       [Leaf [] ''Body'']"

definition test_parser :: "bytes \<Rightarrow> pyexc + message" where
  "test_parser raw =
     (if raw = ''8'' then Inr single_msg
      else if raw = ''9'' then Inr no_subject_msg
      else Inr (multipart_msg raw))"

text \<open>Headers without encoded words decode to themselves; payloads are 7bit.\<close>

definition test_email :: "bool \<Rightarrow> email_lib" where
  "test_email py3 =
     \<lparr> PY3 = py3, message_parser = test_parser,
       decode_words = (\<lambda>h. Inr [(h, None)]),
       transfer_decode = (\<lambda>cte p. p) \<rparr>"

definition test_args :: "string \<Rightarrow> args" where
  "test_args mb =
     \<lparr> a_host = Some ''imap.myhost.com'', a_username = ''myuser'', a_password = ''mypass'',
       a_tls = None, a_port = None, a_mailbox = Some mb, a_filter = None \<rparr>"

section \<open>Properties of the filter compiler\<close>

lemma search_array_loop_append:
  "search_array_loop f acc = acc @ concat (map emit_pair f)"
proof (induction f arbitrary: acc)
  case Nil
  show ?case by simp
next
  case (Cons kv f)
  obtain k v where kv: "kv = (k, v)" by (cases kv)
  show ?case
    by (cases v) (simp_all add: kv Cons.IH Let_def)
qed

lemma search_array_loop_nonempty:
  "f \<noteq> [] \<or> acc \<noteq> [] \<Longrightarrow> search_array_loop f acc \<noteq> []"
proof (induction f arbitrary: acc)
  case Nil
  then show ?case by simp
next
  case (Cons kv f)
  obtain k v where kv: "kv = (k, v)" by (cases kv)
  show ?case
    unfolding kv by (cases v) (simp_all add: Cons.IH Let_def)
qed

text \<open>
  C9. For every filter, the search array is the concatenation, in insertion order, of
  what each (key, value) pair emits: the key, followed at once by the value if and only
  if the value is present and non-empty. So the order k1, v1, k2, v2 of the input pairs
  is the order of the tokens.
\<close>

theorem search_array_order:
  "search_array_of f = compile_spec f
   \<and> search_array_of (f @ g) = search_array_of f @ search_array_of g
   \<and> search_array_of [(k, None)] = [k]
   \<and> search_array_of [(k, Some s)] = (if s = [] then [k] else [k, s])"
  by (simp add: search_array_of_def compile_spec_def search_array_loop_append)

text \<open>
  C6, as the code has it. The empty filter compiles to the empty search array: nothing
  falls back to a match-everything token.
\<close>

theorem empty_filter_counterexample:
  "search_array_of [] = []"
  by (simp add: search_array_of_def)

text \<open>
  C6, amended. Every non-empty filter compiles to a non-empty search array, and when the
  caller supplies no filter the module's default \<^verbatim>\<open>{'ALL': ''}\<close> compiles to the single
  token \<^verbatim>\<open>ALL\<close>.
\<close>

theorem search_array_nonempty:
  "(f \<noteq> [] \<longrightarrow> search_array_of f \<noteq> [])
   \<and> (a_filter a = None \<longrightarrow> search_array_of (p_filter (module_params a)) = [''ALL''])"
  by (simp add: search_array_of_def search_array_loop_nonempty module_params_def
      default_filter_def)

theorem search_array_nonempty_witness:
  "[(''SUBJECT'', Some ''Invoice''), (''UNSEEN'', None)] \<noteq> []
   \<and> search_array_of [(''SUBJECT'', Some ''Invoice''), (''UNSEEN'', None)]
       = [''SUBJECT'', ''Invoice'', ''UNSEEN'']
   \<and> search_array_of (p_filter (module_params
        \<lparr> a_host = None, a_username = ''u'', a_password = ''p'', a_tls = None,
          a_port = None, a_mailbox = None, a_filter = None \<rparr>)) = [''ALL'']"
  using search_array_nonempty
    [of "[(''SUBJECT'', Some ''Invoice''), (''UNSEEN'', None)]"
        "\<lparr> a_host = None, a_username = ''u'', a_password = ''p'', a_tls = None,
          a_port = None, a_mailbox = None, a_filter = None \<rparr>"]
  by (simp add: search_array_of_def)

section \<open>Properties of the run\<close>

subsection \<open>The calls in the log\<close>

lemma logged_simps [simp]:
  "fst (logged ev r) = fst r" "snd (logged ev r) = ev # snd r"
  by (simp_all add: logged_def)

lemma snd_exit_after_loop [simp]: "snd (exit_after_loop lr) = snd lr"
  by (simp add: exit_after_loop_def split: sum.splits)

lemma calls_simps [simp]:
  "calls [] = []" "calls (ev # tr) = fst ev # calls tr"
  by (simp_all add: calls_def)

lemma loop_no_close:
  "Close \<notin> set (calls (snd (build_result_mails W L ids result s)))
   \<and> Logout \<notin> set (calls (snd (build_result_mails W L ids result s)))"
proof (induction ids arbitrary: result s)
  case Nil
  show ?case by simp
next
  case (Cons email_id ids)
  show ?case
    by (simp add: Cons.IH split: sum.splits prod.splits)
qed

lemma search_stage_no_close:
  "Close \<notin> set (calls (snd (search_stage W L p result s)))
   \<and> Logout \<notin> set (calls (snd (search_stage W L p result s)))"
  by (simp add: search_stage_def Let_def loop_no_close split: sum.splits prod.splits)

lemma select_stage_no_close:
  "Close \<notin> set (calls (snd (select_stage W L p result s)))
   \<and> Logout \<notin> set (calls (snd (select_stage W L p result s)))"
  by (simp add: select_stage_def search_stage_no_close split: sum.splits prod.splits)

lemma login_stage_no_close:
  "Close \<notin> set (calls (snd (login_stage W L p result s)))
   \<and> Logout \<notin> set (calls (snd (login_stage W L p result s)))"
  by (simp add: login_stage_def select_stage_no_close split: sum.splits)

lemma run_module_no_close:
  "Close \<notin> set (calls (snd (run_module W L a cm)))
   \<and> Logout \<notin> set (calls (snd (run_module W L a cm)))"
  by (simp add: run_module_def Let_def login_stage_no_close split: sum.splits)

subsection \<open>Where fail_json is reached\<close>

lemma point_front:
  assumes "failure_point ev = None"
    and "P = (tr \<noteq> [] \<and> failure_point (last tr) = Some m)"
  shows "P = (ev # tr \<noteq> [] \<and> failure_point (last (ev # tr)) = Some m)"
  using assms by (cases tr) simp_all

lemma loop_points:
  "(\<exists>r. fst (build_result_mails W L ids result s) = Inl (FailJson m r))
     = (snd (build_result_mails W L ids result s) \<noteq> []
        \<and> failure_point (last (snd (build_result_mails W L ids result s))) = Some m)"
proof (induction ids arbitrary: result s)
  case Nil
  show ?case by simp
next
  case (Cons email_id ids)
  show ?case
  proof (cases "M_fetch W email_id ''(RFC822)'' s")
    case (Inl e)
    then show ?thesis by simp
  next
    case fetched: (Inr x)
    obtain status content s' where x: "x = ((status, content), s')"
      by (metis prod.exhaust)
    show ?thesis
    proof (cases "status = ''OK''")
      case False
      then show ?thesis by (auto simp: fetched x)
    next
      case ok: True
      show ?thesis
      proof (cases "parse_content L content")
        case (Inl e)
        then show ?thesis by (simp add: fetched x ok)
      next
        case pc: (Inr msg)
        show ?thesis
        proof (cases "build_mail L msg")
          case (Inl e)
          then show ?thesis by (simp add: fetched x ok pc)
        next
          case bm: (Inr mail)
          have step: "build_result_mails W L (email_id # ids) result s =
              logged (Fetch email_id ''(RFC822)'', Status ''OK'')
                (build_result_mails W L ids (result\<lparr>mails := mails result @ [mail]\<rparr>) s')"
            by (simp add: fetched x ok pc bm)
          have fp: "failure_point (Fetch email_id ''(RFC822)'', Status ''OK'') = None" by simp
          show ?thesis
            unfolding step logged_simps
            by (rule point_front [OF fp]) (rule Cons.IH)
        qed
      qed
    qed
  qed
qed

lemma exit_after_loop_fail:
  "(\<exists>r. fst (exit_after_loop lr) = FailJson m r) = (\<exists>r. fst lr = Inl (FailJson m r))"
  by (simp add: exit_after_loop_def split: sum.splits)

lemma search_stage_points:
  "(\<exists>r. fst (search_stage W L p result s) = FailJson m r)
     = (snd (search_stage W L p result s) \<noteq> []
        \<and> failure_point (last (snd (search_stage W L p result s))) = Some m)"
proof (cases "M_search W (search_array_of (p_filter p)) s")
  case (Inl e)
  then show ?thesis by (simp add: search_stage_def)
next
  case searched: (Inr x)
  obtain status search s' where x: "x = ((status, search), s')"
    by (metis prod.exhaust)
  show ?thesis
  proof (cases "status = ''OK''")
    case False
    then show ?thesis by (auto simp: search_stage_def searched x)
  next
    case ok: True
    have fp: "failure_point (Search (search_array_of (p_filter p)), Status ''OK'') = None"
      by simp
    show ?thesis
    proof (cases "email_ids search")
      case (Inl e)
      then show ?thesis by (simp add: search_stage_def searched x ok)
    next
      case (Inr ids)
      have step: "search_stage W L p result s =
          logged (Search (search_array_of (p_filter p)), Status ''OK'')
            (exit_after_loop (build_result_mails W L ids result s'))"
        by (simp add: search_stage_def searched x ok Inr)
      show ?thesis
        unfolding step logged_simps snd_exit_after_loop exit_after_loop_fail
        by (rule point_front [OF fp]) (rule loop_points)
    qed
  qed
qed

lemma select_stage_points:
  "(\<exists>r. fst (select_stage W L p result s) = FailJson m r)
     = (snd (select_stage W L p result s) \<noteq> []
        \<and> failure_point (last (snd (select_stage W L p result s))) = Some m)"
proof (cases "M_select W (p_mailbox p) s")
  case (Inl e)
  then show ?thesis by (simp add: select_stage_def)
next
  case (Inr x)
  obtain status s' where x: "x = (status, s')" by (cases x)
  have fp: "failure_point (Select (p_mailbox p), Status status) = None" by simp
  have step: "select_stage W L p result s =
      logged (Select (p_mailbox p), Status status) (search_stage W L p result s')"
    by (simp add: select_stage_def Inr x)
  show ?thesis
    unfolding step logged_simps
    by (rule point_front [OF fp]) (rule search_stage_points)
qed

lemma login_stage_points:
  "(\<exists>r. fst (login_stage W L p result s) = FailJson m r)
     = (snd (login_stage W L p result s) \<noteq> []
        \<and> failure_point (last (snd (login_stage W L p result s))) = Some m)"
proof (cases "M_login W (p_username p) (p_password p) s")
  case (Inl e)
  then show ?thesis by (auto simp: login_stage_def)
next
  case (Inr s')
  have fp: "failure_point (Login (p_username p) (p_password p), Done) = None" by simp
  have step: "login_stage W L p result s =
      logged (Login (p_username p) (p_password p), Done) (select_stage W L p result s')"
    by (simp add: login_stage_def Inr)
  show ?thesis
    unfolding step logged_simps
    by (rule point_front [OF fp]) (rule select_stage_points)
qed

lemma run_module_points:
  "(\<exists>r. fst (run_module W L a cm) = FailJson m r)
     = (snd (run_module W L a cm) \<noteq> []
        \<and> failure_point (last (snd (run_module W L a cm))) = Some m)"
proof (cases cm)
  case True
  then show ?thesis by (simp add: run_module_def Let_def)
next
  case live: False
  show ?thesis
  proof (cases "create_connection W (module_params a)")
    case (Inl e)
    then show ?thesis by (auto simp: run_module_def Let_def live)
  next
    case (Inr M)
    let ?p = "module_params a"
    have fp: "failure_point (Open (p_tls ?p) (p_host ?p) (effective_port ?p), Done) = None"
      by simp
    have step: "run_module W L a cm =
        logged (Open (p_tls ?p) (p_host ?p) (effective_port ?p), Done)
          (login_stage W L ?p (base_result ?p) M)"
      by (simp add: run_module_def Let_def live Inr)
    show ?thesis
      unfolding step logged_simps
      by (rule point_front [OF fp]) (rule login_stage_points)
  qed
qed

subsection \<open>What a failure result carries\<close>

lemma loop_frame:
  "fst (build_result_mails W L ids result s) = Inl (FailJson m r) \<Longrightarrow>
     changed r = changed result \<and> username r = username result \<and> host r = host result
     \<and> mails_count r = mails_count result"
proof (induction ids arbitrary: result s)
  case Nil
  then show ?case by simp
next
  case (Cons email_id ids)
  show ?case
  proof (cases "M_fetch W email_id ''(RFC822)'' s")
    case (Inl e)
    with Cons.prems show ?thesis by simp
  next
    case fetched: (Inr x)
    obtain status content s' where x: "x = ((status, content), s')"
      by (metis prod.exhaust)
    show ?thesis
    proof (cases "status = ''OK''")
      case False
      with Cons.prems show ?thesis by (auto simp: fetched x)
    next
      case ok: True
      show ?thesis
      proof (cases "parse_content L content")
        case (Inl e)
        with Cons.prems show ?thesis by (simp add: fetched x ok)
      next
        case pc: (Inr msg)
        show ?thesis
        proof (cases "build_mail L msg")
          case (Inl e)
          with Cons.prems show ?thesis by (simp add: fetched x ok pc)
        next
          case bm: (Inr mail)
          from Cons.prems have
            "fst (build_result_mails W L ids (result\<lparr>mails := mails result @ [mail]\<rparr>) s')
               = Inl (FailJson m r)"
            by (simp add: fetched x ok pc bm)
          from Cons.IH [OF this] show ?thesis by simp
        qed
      qed
    qed
  qed
qed

lemma search_stage_frame:
  "fst (search_stage W L p result s) = FailJson m r \<Longrightarrow>
     changed r = changed result \<and> username r = username result \<and> host r = host result
     \<and> mails_count r = mails_count result"
  using loop_frame [of W L _ result _ m r]
  by (auto simp: search_stage_def exit_after_loop_def Let_def
      split: sum.splits prod.splits if_splits)

lemma run_module_frame:
  "fst (run_module W L a cm) = FailJson m r \<Longrightarrow>
     changed r \<and> username r = a_username a \<and> host r = p_host (module_params a)
     \<and> mails_count r = 0"
  using search_stage_frame [of W L "module_params a" "base_result (module_params a)" _ m r]
  by (auto simp: run_module_def login_stage_def select_stage_def Let_def base_result_def
      module_params_def split: sum.splits prod.splits if_splits)

subsection \<open>Runs that end in exit_json\<close>

lemma loop_success:
  "fst (build_result_mails W L ids result s) = Inr r \<Longrightarrow>
     length (mails r) = length (mails result) + length ids
     \<and> snd (build_result_mails W L ids result s)
         = map (\<lambda>i. (Fetch i ''(RFC822)'', Status ''OK'')) ids"
proof (induction ids arbitrary: result s)
  case Nil
  then show ?case by simp
next
  case (Cons email_id ids)
  show ?case
  proof (cases "M_fetch W email_id ''(RFC822)'' s")
    case (Inl e)
    with Cons.prems show ?thesis by simp
  next
    case fetched: (Inr x)
    obtain status content s' where x: "x = ((status, content), s')"
      by (metis prod.exhaust)
    show ?thesis
    proof (cases "status = ''OK''")
      case False
      with Cons.prems show ?thesis by (simp add: fetched x)
    next
      case ok: True
      show ?thesis
      proof (cases "parse_content L content")
        case (Inl e)
        with Cons.prems show ?thesis by (simp add: fetched x ok)
      next
        case pc: (Inr msg)
        show ?thesis
        proof (cases "build_mail L msg")
          case (Inl e)
          with Cons.prems show ?thesis by (simp add: fetched x ok pc)
        next
          case bm: (Inr mail)
          have step: "build_result_mails W L (email_id # ids) result s =
              logged (Fetch email_id ''(RFC822)'', Status ''OK'')
                (build_result_mails W L ids (result\<lparr>mails := mails result @ [mail]\<rparr>) s')"
            by (simp add: fetched x ok pc bm)
          from Cons.prems have
            "fst (build_result_mails W L ids (result\<lparr>mails := mails result @ [mail]\<rparr>) s')
               = Inr r"
            unfolding step by simp
          from Cons.IH [OF this] show ?thesis
            unfolding step by simp
        qed
      qed
    qed
  qed
qed

lemma loop_no_exit:
  "fst (build_result_mails W L ids result s) \<noteq> Inl (ExitJson r)"
proof (induction ids arbitrary: result s)
  case Nil
  show ?case by simp
next
  case (Cons email_id ids)
  show ?case
    by (simp add: Cons.IH split: sum.splits prod.splits)
qed

lemma search_stage_success:
  assumes "fst (search_stage W L p result s) = ExitJson r" and "mails result = []"
  shows "mails_count r = int (length (mails r))
     \<and> length (mails r) = length (filter is_fetch (calls (snd (search_stage W L p result s))))
     \<and> (\<forall>i parts reply. (Fetch i parts, reply) \<in> set (snd (search_stage W L p result s))
           \<longrightarrow> reply = Status ''OK'')"
proof (cases "M_search W (search_array_of (p_filter p)) s")
  case (Inl e)
  with assms show ?thesis by (simp add: search_stage_def)
next
  case searched: (Inr x)
  obtain status search s' where x: "x = ((status, search), s')"
    by (metis prod.exhaust)
  show ?thesis
  proof (cases "status = ''OK''")
    case False
    with assms show ?thesis by (simp add: search_stage_def searched x)
  next
    case ok: True
    show ?thesis
    proof (cases "email_ids search")
      case (Inl e)
      with assms show ?thesis by (simp add: search_stage_def searched x ok)
    next
      case (Inr ids)
      have step: "search_stage W L p result s =
          logged (Search (search_array_of (p_filter p)), Status ''OK'')
            (exit_after_loop (build_result_mails W L ids result s'))"
        by (simp add: search_stage_def searched x ok Inr)
      from assms(1) obtain r' where
        loop: "fst (build_result_mails W L ids result s') = Inr r'"
        and r: "r = r'\<lparr>mails_count := int (length (mails r'))\<rparr>"
        using loop_no_exit [of W L ids result s' r]
        by (auto simp: step exit_after_loop_def split: sum.splits)
      from loop_success [OF loop] assms(2) have
        len: "length (mails r') = length ids"
        and tr: "snd (build_result_mails W L ids result s')
          = map (\<lambda>i. (Fetch i ''(RFC822)'', Status ''OK'')) ids"
        by simp_all
      have cnt: "filter is_fetch (map (\<lambda>i. Fetch i ''(RFC822)'') ids)
          = map (\<lambda>i. Fetch i ''(RFC822)'') ids"
        by (induction ids) simp_all
      show ?thesis
        by (auto simp: step r len tr calls_def comp_def cnt)
    qed
  qed
qed

lemma run_module_success:
  assumes "fst (run_module W L a cm) = ExitJson r"
  shows "mails_count r = int (length (mails r))
     \<and> length (mails r) = length (filter is_fetch (calls (snd (run_module W L a cm))))
     \<and> (\<forall>i parts reply. (Fetch i parts, reply) \<in> set (snd (run_module W L a cm))
           \<longrightarrow> reply = Status ''OK'')"
proof (cases cm)
  case True
  with assms show ?thesis
    by (auto simp: run_module_def Let_def base_result_def)
next
  case live: False
  let ?p = "module_params a"
  show ?thesis
  proof (cases "create_connection W ?p")
    case (Inl e)
    with assms live show ?thesis by (simp add: run_module_def Let_def)
  next
    case conn: (Inr M)
    show ?thesis
    proof (cases "M_login W (p_username ?p) (p_password ?p) M")
      case (Inl e)
      with assms live conn show ?thesis by (simp add: run_module_def login_stage_def Let_def)
    next
      case login: (Inr s1)
      show ?thesis
      proof (cases "M_select W (p_mailbox ?p) s1")
        case (Inl e)
        with assms live conn login show ?thesis
          by (simp add: run_module_def login_stage_def select_stage_def Let_def)
      next
        case (Inr x)
        obtain status s2 where x: "x = (status, s2)" by (cases x)
        have step: "run_module W L a cm =
            logged (Open (p_tls ?p) (p_host ?p) (effective_port ?p), Done)
              (logged (Login (p_username ?p) (p_password ?p), Done)
                (logged (Select (p_mailbox ?p), Status status)
                  (search_stage W L ?p (base_result ?p) s2)))"
          by (simp add: run_module_def login_stage_def select_stage_def Let_def live conn
              login Inr x)
        from assms have "fst (search_stage W L ?p (base_result ?p) s2) = ExitJson r"
          by (simp add: step)
        from search_stage_success [OF this] show ?thesis
          by (simp add: step base_result_def)
      qed
    qed
  qed
qed

subsection \<open>Evaluating the concrete session\<close>

lemma imap_fields:
  "IMAP4_SSL (test_server sr bad) h port =
     (if h = ''imap.myhost.com'' then Inr NONAUTH else Inl (Error ''Name or service not known''))"
  "IMAP4 (test_server sr bad) h port =
     (if h = ''imap.myhost.com'' then Inr NONAUTH else Inl (Error ''Name or service not known''))"
  "M_login (test_server sr bad) u pw s =
     (if pw = ''mypass'' then Inr AUTH else Inl (Error ''LOGIN failed''))"
  "M_select (test_server sr bad) mb s =
     (if mb = ''INBOX'' then Inr (''OK'', SELECTED) else Inr (''NO'', AUTH))"
  "M_search (test_server sr bad) toks s =
     (if s = SELECTED then Inr (sr, s) else Inl (Error ''command SEARCH illegal in state AUTH''))"
  "M_fetch (test_server sr bad) i parts s =
     (if s \<noteq> SELECTED then Inl (Error ''command FETCH illegal in state AUTH'')
      else if i \<in> set bad then Inr ((''NO'', [FBytes ''fetch failed'']), s)
      else Inr ((''OK'', [FTuple (i @ '' (RFC822 {64}'') i, FBytes '')'']), s))"
  by (simp_all add: test_server_def)

lemma email_fields:
  "PY3 (test_email py3) = py3"
  "message_parser (test_email py3) = test_parser"
  "decode_words (test_email py3) h = Inr [(h, None)]"
  "transfer_decode (test_email py3) cte p = p"
  by (simp_all add: test_email_def)

lemma lower_names:
  "lower ''to'' = ''to''" "lower ''from'' = ''from''" "lower ''subject'' = ''subject''"
  "lower ''To'' = ''to''" "lower ''From'' = ''from''" "lower ''Subject'' = ''subject''"
  by (simp_all add: lower_def lower_char_def)

lemma build_multipart:
  "build_mail (test_email py3) (multipart_msg n) =
     Inr \<lparr> mail_to = ''ops@example.com'', mail_from = ''billing@example.com'',
           mail_subject = ''Invoice '' @ n, mail_body = Some (''Body '' @ n) \<rparr>"
  by (simp add: build_mail_def first_chunk_def decode_header_def getitem_def multipart_msg_def
      email_fields lower_names)

lemma test_params:
  "module_params (test_args mb) =
     \<lparr> p_host = ''imap.myhost.com'', p_username = ''myuser'', p_password = ''mypass'',
       p_tls = True, p_port = - 1, p_mailbox = mb, p_filter = [(''ALL'', Some '''')] \<rparr>"
  by (simp add: module_params_def test_args_def default_filter_def)

lemma test_search_array: "search_array_of [(''ALL'', Some '''')] = [''ALL'']"
  by (simp add: search_array_of_def)

lemma test_parse:
  "parse_content (test_email py3) [FTuple envelope raw, x] = test_parser raw"
  by (simp add: parse_content_def email_fields)

lemma test_ids:
  "email_ids [Some ''1 2 3 4 5''] = Inr [''1'', ''2'', ''3'', ''4'', ''5'']"
  "email_ids [Some ''7 8''] = Inr [''7'', ''8'']"
  "email_ids [Some ''8''] = Inr [''8'']"
  "email_ids [Some ''9''] = Inr [''9'']"
  "email_ids [Some ''7''] = Inr [''7'']"
  "email_ids [Some ''''] = Inr []"
  by (simp_all add: email_ids_def bytes_split_def is_space_def)

lemma build_single:
  "build_mail (test_email py3) single_msg = Inl (TypeError ''Expected list, got str'')"
  by (simp add: build_mail_def first_chunk_def decode_header_def getitem_def single_msg_def
      email_fields lower_names)

lemma build_no_subject:
  "build_mail (test_email True) no_subject_msg =
     Inl (TypeError ''expected string or bytes-like object'')"
  "build_mail (test_email False) no_subject_msg =
     Inr \<lparr> mail_to = ''ops@example.com'', mail_from = ''billing@example.com'',
           mail_subject = ''None'', mail_body = Some ''Body'' \<rparr>"
  by (simp_all add: build_mail_def first_chunk_def decode_header_def getitem_def
      no_subject_msg_def email_fields lower_names)

lemmas run_defs = run_module_def login_stage_def select_stage_def search_stage_def
  exit_after_loop_def create_connection_def effective_port_def base_result_def logged_def
  Let_def test_params test_search_array imap_fields test_parse test_ids test_parser_def
  build_multipart build_single build_no_subject

section \<open>The claims about the run\<close>

text \<open>
  C1. A fetch that fails on the third of five ids: the retrieval ends in
  \<^verbatim>\<open>fail_json\<close>, and the result passed to it still holds the two mails decoded before
  the failure, beside a \<^verbatim>\<open>mails_count\<close> of 0. The list in progress is not discarded.
\<close>

theorem fetch_failure_passes_partial_mails:
  "run_module (test_server (''OK'', [Some ''1 2 3 4 5'']) [''3'']) (test_email True)
       (test_args ''INBOX'') False =
    (FailJson ''Error parsing''
      \<lparr> changed = True, username = ''myuser'', host = ''imap.myhost.com'',
        mails = [\<lparr> mail_to = ''ops@example.com'', mail_from = ''billing@example.com'',
                   mail_subject = ''Invoice 1'', mail_body = Some ''Body 1'' \<rparr>,
                 \<lparr> mail_to = ''ops@example.com'', mail_from = ''billing@example.com'',
                   mail_subject = ''Invoice 2'', mail_body = Some ''Body 2'' \<rparr>],
        mails_count = 0 \<rparr>,
     [(Open True ''imap.myhost.com'' 993, Done), (Login ''myuser'' ''mypass'', Done),
      (Select ''INBOX'', Status ''OK''), (Search [''ALL''], Status ''OK''),
      (Fetch ''1'' ''(RFC822)'', Status ''OK''), (Fetch ''2'' ''(RFC822)'', Status ''OK''),
      (Fetch ''3'' ''(RFC822)'', Status ''NO'')])"
  by (simp add: run_defs)

text \<open>
  C2. In the failure result of a fetch that fails on the second of two ids,
  \<^verbatim>\<open>mails_count\<close> is 0 while \<^verbatim>\<open>mails\<close> holds one entry: the two fields disagree.
\<close>

theorem fetch_failure_count_mismatch:
  "\<exists>m r. fst (run_module (test_server (''OK'', [Some ''7 8'']) [''8'']) (test_email True)
              (test_args ''INBOX'') False) = FailJson m r
         \<and> length (mails r) = 1 \<and> mails_count r = 0
         \<and> mails_count r \<noteq> int (length (mails r))"
  by (simp add: run_defs)

text \<open>
  C3. Selecting a mailbox the server does not have: \<^verbatim>\<open>select\<close> answers \<^verbatim>\<open>NO\<close>, the answer
  is dropped, and the next call on the session is the search. The run ends in the
  exception that the search raises, not in a failure raised for the mailbox.
\<close>

theorem missing_mailbox_reaches_search:
  "run_module (test_server (''OK'', [Some ''7'']) []) (test_email True)
       (test_args ''Archive'') False =
    (Traceback (Error ''command SEARCH illegal in state AUTH''),
     [(Open True ''imap.myhost.com'' 993, Done), (Login ''myuser'' ''mypass'', Done),
      (Select ''Archive'', Status ''NO''),
      (Search [''ALL''], Raised (Error ''command SEARCH illegal in state AUTH''))])"
  by (simp add: run_defs)

text \<open>
  C4. A message that is not multipart is never decoded: \<^verbatim>\<open>msg.get_payload(0)\<close> raises
  \<^verbatim>\<open>TypeError\<close> on it, whatever its headers and payload, and a retrieval that fetches the
  single-part message with known to, from, subject and body ends in that exception,
  under Python 3 and under Python 2.
\<close>

theorem single_part_message_not_decoded:
  "build_mail L (Leaf hs p) \<noteq> Inr m
   \<and> fst (run_module (test_server (''OK'', [Some ''8'']) []) (test_email True)
            (test_args ''INBOX'') False) = Traceback (TypeError ''Expected list, got str'')
   \<and> fst (run_module (test_server (''OK'', [Some ''8'']) []) (test_email False)
            (test_args ''INBOX'') False) = Traceback (TypeError ''Expected list, got str'')"
proof -
  have "build_mail L (Leaf hs p) \<noteq> Inr m"
    by (simp add: build_mail_def split: sum.splits)
  then show ?thesis
    by (simp add: run_defs)
qed

text \<open>
  C5. A fetched message without a \<^verbatim>\<open>Subject\<close> header: under Python 3 the retrieval ends
  in the \<^verbatim>\<open>TypeError\<close> that \<^verbatim>\<open>decode_header(None)\<close> raises; under Python 2 the subject of
  the mail is the text \<^verbatim>\<open>None\<close>. In neither case is it the empty string.
\<close>

theorem missing_header_not_empty:
  "fst (run_module (test_server (''OK'', [Some ''9'']) []) (test_email True)
          (test_args ''INBOX'') False)
     = Traceback (TypeError ''expected string or bytes-like object'')
   \<and> fst (run_module (test_server (''OK'', [Some ''9'']) []) (test_email False)
          (test_args ''INBOX'') False)
     = ExitJson
        \<lparr> changed = True, username = ''myuser'', host = ''imap.myhost.com'',
          mails = [\<lparr> mail_to = ''ops@example.com'', mail_from = ''billing@example.com'',
                     mail_subject = ''None'', mail_body = Some ''Body'' \<rparr>],
          mails_count = 1 \<rparr>"
  by (simp add: run_defs)

text \<open>
  C7, as the code has it. A retrieval that connects, logs in, selects, searches and
  fetches one message exits without having called close once.
\<close>

theorem close_once_counterexample:
  "count_list (calls (snd (run_module (test_server (''OK'', [Some ''7'']) []) (test_email True)
       (test_args ''INBOX'') False))) Close \<noteq> 1"
  by (simp add: run_defs)

text \<open>
  C7, amended. On every exit path of the retrieval, success or failure at any stage,
  the session's close operation has been invoked zero times, and so has logout.
\<close>

theorem close_never_called:
  "count_list (calls (snd (run_module W L a cm))) Close = 0
   \<and> count_list (calls (snd (run_module W L a cm))) Logout = 0"
  by (simp add: count_list_0_iff run_module_no_close)





section \<open>Further properties of the run\<close>

text \<open>
  A run that ends in \<^verbatim>\<open>exit_json\<close> returns a complete list: \<^verbatim>\<open>mails_count\<close> is the
  length of \<^verbatim>\<open>mails\<close>, \<^verbatim>\<open>mails\<close> has one entry for every fetch issued, and every fetch was
  answered OK. No truncated list is returned as a success.
\<close>

theorem success_is_complete:
  assumes "fst (run_module W L a cm) = ExitJson r"
  shows "mails_count r = int (length (mails r))
     \<and> length (mails r) = length (filter is_fetch (calls (snd (run_module W L a cm))))
     \<and> (\<forall>i parts reply. (Fetch i parts, reply) \<in> set (snd (run_module W L a cm))
           \<longrightarrow> reply = Status ''OK'')"
  using assms by (rule run_module_success)

theorem success_is_complete_witness:
  "fst (run_module (test_server (''OK'', [Some ''7'']) []) (test_email True)
          (test_args ''INBOX'') False)
     = ExitJson
        \<lparr> changed = True, username = ''myuser'', host = ''imap.myhost.com'',
          mails = [\<lparr> mail_to = ''ops@example.com'', mail_from = ''billing@example.com'',
                     mail_subject = ''Invoice 7'', mail_body = Some ''Body 7'' \<rparr>],
          mails_count = 1 \<rparr>
   \<and> length (filter is_fetch (calls (snd (run_module (test_server (''OK'', [Some ''7'']) [])
          (test_email True) (test_args ''INBOX'') False)))) = 1"
proof -
  let ?r = "\<lparr> changed = True, username = ''myuser'', host = ''imap.myhost.com'',
          mails = [\<lparr> mail_to = ''ops@example.com'', mail_from = ''billing@example.com'',
                     mail_subject = ''Invoice 7'', mail_body = Some ''Body 7'' \<rparr>],
          mails_count = 1 \<rparr>"
  have run: "fst (run_module (test_server (''OK'', [Some ''7'']) []) (test_email True)
          (test_args ''INBOX'') False) = ExitJson ?r"
    by (simp add: run_defs)
  from success_is_complete [OF run] run show ?thesis
    by simp
qed

text \<open>
  For a multipart message whose first part is not itself multipart, the body of the
  mail is the payload of that first part, decoded from the transfer encoding named by
  the part's \<^verbatim>\<open>Content-Transfer-Encoding\<close> header.
\<close>

theorem multipart_body:
  "build_mail L (Multipart hs (Leaf phs p # ps)) = Inr m \<Longrightarrow>
     mail_body m =
       Some (transfer_decode L
         (lower (case header_lookup phs ''content-transfer-encoding'' of
                   None \<Rightarrow> [] | Some cte \<Rightarrow> cte)) p)"
  by (auto simp: build_mail_def split: sum.splits)

theorem multipart_body_witness:
  "build_mail (test_email True)
      (Multipart [(''To'', ''ops@example.com''), (''From'', ''billing@example.com''),
                  (''Subject'', ''Invoice 7'')]
         (Leaf [(''Content-Type'', ''text/plain'')] ''Body 7'' # [Leaf [] ''attachment'']))
     = Inr \<lparr> mail_to = ''ops@example.com'', mail_from = ''billing@example.com'',
             mail_subject = ''Invoice 7'', mail_body = Some ''Body 7'' \<rparr>
   \<and> mail_body \<lparr> mail_to = ''ops@example.com'', mail_from = ''billing@example.com'',
             mail_subject = ''Invoice 7'', mail_body = Some ''Body 7'' \<rparr> = Some ''Body 7''"
proof -
  have built: "build_mail (test_email True)
      (Multipart [(''To'', ''ops@example.com''), (''From'', ''billing@example.com''),
                  (''Subject'', ''Invoice 7'')]
         (Leaf [(''Content-Type'', ''text/plain'')] ''Body 7'' # [Leaf [] ''attachment'']))
     = Inr \<lparr> mail_to = ''ops@example.com'', mail_from = ''billing@example.com'',
             mail_subject = ''Invoice 7'', mail_body = Some ''Body 7'' \<rparr>"
    using build_multipart [of True "''7''"] by (simp add: multipart_msg_def)
  from multipart_body [OF built] built show ?thesis
    by simp
qed

text \<open>
  In check mode the module opens no connection: it exits at once with the base
  result, \<^verbatim>\<open>changed\<close> true, no mails and a count of 0, and the log is empty.
\<close>

theorem check_mode_exits_first:
  "run_module W L a True =
     (ExitJson \<lparr> changed = True, username = a_username a, host = p_host (module_params a),
                 mails = [], mails_count = 0 \<rparr>, [])"
  by (simp add: run_module_def Let_def base_result_def module_params_def)

end
